theory Spec2Isabelle
  imports Main
begin

section \<open>The Turing machine of T-u-ring.py\<close>

text \<open>
  A shallow embedding of the class \<open>TuringMachine\<close> and its nested class \<open>Action\<close>.
  Python strings are \<open>string\<close>; a tape cell is a Python string (normally of one
  character), so the tape is a \<open>string list\<close>. Python's unbounded integers are
  \<open>int\<close>. The dictionary of dictionaries \<open>action_table\<close> is a map of maps. An
  uncaught Python exception is a value of \<open>py_error\<close>.
\<close>

subsection \<open>Data\<close>

datatype py_error = IndexError | KeyError

text \<open>
  \<open>Action\<close>: the character to write (\<open>self.write\<close>, here \<open>write_char\<close>), the head
  movement and the next state. The back reference \<open>self.turing_machine\<close> is the machine
  the action is applied to, passed explicitly.
\<close>

record action =
  write_char :: string
  direction :: int
  new_state :: int

record machine =
  head :: int
  state :: int
  halt_state :: int
  tape_contents :: "string list"
  action_table :: "int \<rightharpoonup> (string \<rightharpoonup> action)"

text \<open>\<open>TuringMachine.__init__\<close>.\<close>

definition init_machine :: machine where
  "init_machine =
     \<lparr>head = 0, state = 0, halt_state = 0, tape_contents = [], action_table = Map.empty\<rparr>"

subsection \<open>Python list indexing\<close>

text \<open>
  The position \<open>xs[i]\<close> denotes in a Python list: an index from \<open>-len\<close> to \<open>-1\<close>
  counts from the end, and an index outside \<open>-len .. len - 1\<close> raises \<open>IndexError\<close>
  (\<open>None\<close> here).
\<close>

definition py_index :: "'a list \<Rightarrow> int \<Rightarrow> nat option" where
  "py_index xs i =
     (if 0 \<le> i \<and> i < int (length xs) then Some (nat i)
      else if - int (length xs) \<le> i \<and> i < 0 then Some (nat (int (length xs) + i))
      else None)"

subsection \<open>Action.take_action\<close>

text \<open>
  Lines 44-45: the write, skipped when \<open>self.write\<close> is \<open>*\<close>. The result is the tape
  after the assignment, or the \<open>IndexError\<close> the assignment raises.
\<close>

definition write_tape :: "action \<Rightarrow> machine \<Rightarrow> py_error + string list" where
  "write_tape a m =
     (if write_char a \<noteq> ''*'' then
        (case py_index (tape_contents m) (head m) of
           None \<Rightarrow> Inl IndexError
         | Some k \<Rightarrow> Inr ((tape_contents m)[k := write_char a]))
      else Inr (tape_contents m))"

text \<open>
  Lines 49-77: the head moves by \<open>direction\<close>; a negative head prepends a blank and
  resets the head to 0, a head at or past the end appends one blank; then the state
  changes. An exception of the write leaves the machine as it was.
\<close>

definition take_action :: "action \<Rightarrow> machine \<Rightarrow> py_error + machine" where
  "take_action a m =
     (case write_tape a m of
        Inl e \<Rightarrow> Inl e
      | Inr t \<Rightarrow>
          (let h = head m + direction a in
           if h < 0 then
             Inr (m\<lparr>head := 0, state := new_state a, tape_contents := ''-'' # t\<rparr>)
           else if h \<ge> int (length t) then
             Inr (m\<lparr>head := h, state := new_state a, tape_contents := t @ [''-'']\<rparr>)
           else
             Inr (m\<lparr>head := h, state := new_state a, tape_contents := t\<rparr>)))"

subsection \<open>TuringMachine.execute\<close>

text \<open>
  What \<open>execute\<close> gives back: the list of tape snapshots, \<open>None\<close> (\<open>NoTrace\<close>), or an
  uncaught exception.
\<close>

datatype outcome = Trace "string list" | NoTrace | Raised py_error

datatype step_result = Stopped outcome | Stepped machine

text \<open>
  Lines 205-215: the key under which the action is looked up in the current state's
  dictionary: the character read if it is a key, else \<open>*\<close> if that is a key, else
  nothing.
\<close>

definition select_read :: "(string \<rightharpoonup> action) \<Rightarrow> string \<Rightarrow> string option" where
  "select_read row c =
     (if row c \<noteq> None then Some c
      else if row ''*'' \<noteq> None then Some ''*''
      else None)"

text \<open>Lines 201-220: one pass through the body of the \<open>while\<close> loop.\<close>

definition loop_body :: "machine \<Rightarrow> step_result" where
  "loop_body m =
     (case action_table m (state m) of
        None \<Rightarrow> Stopped NoTrace
      | Some row \<Rightarrow>
          (case py_index (tape_contents m) (head m) of
             None \<Rightarrow> Stopped (Raised IndexError)
           | Some k \<Rightarrow>
               (case select_read row (tape_contents m ! k) of
                  None \<Rightarrow> Stopped NoTrace
                | Some read \<Rightarrow>
                    (case row read of
                       None \<Rightarrow> Stopped (Raised KeyError)
                     | Some a \<Rightarrow>
                         (case take_action a m of
                            Inl e \<Rightarrow> Stopped (Raised e)
                          | Inr m' \<Rightarrow> Stepped m')))))"

text \<open>
  Lines 197-231: the loop. It may run forever, so the result is an option: \<open>None\<close>
  is the loop that never ends. The second component is the machine as the call
  leaves it.
\<close>

partial_function (option) execute_loop ::
    "machine \<Rightarrow> string list \<Rightarrow> (outcome \<times> machine) option" where
  "execute_loop m all_tape_contents =
     (if state m \<noteq> halt_state m then
        (case loop_body m of
           Stopped r \<Rightarrow> Some (r, m)
         | Stepped m' \<Rightarrow>
             execute_loop m' (all_tape_contents @ [concat (tape_contents m')]))
      else Some (Trace all_tape_contents, m))"

declare execute_loop.simps [code]

definition execute :: "machine \<Rightarrow> (outcome \<times> machine) option" where
  "execute m = execute_loop m [concat (tape_contents m)]"

subsection \<open>TuringMachine.read_machine\<close>

text \<open>
  The builtin \<open>int\<close> on a string. A \<open>char\<close> stands for a code point below 256, so
  the text of this model is text of such code points. There \<open>int\<close> drops the blanks
  around the number (tab, line feed, vertical tab, form feed, carriage return, space,
  and the code points 133 and 160), reads an optional sign and then decimal digits
  \<open>0\<close> to \<open>9\<close>, where one underscore may stand between two digits, and refuses a
  number of more than 4300 digits (the default of \<open>sys.set_int_max_str_digits\<close> since
  Python 3.11; leading zeros count, underscores do not). \<open>None\<close> is the
  \<open>ValueError\<close> that \<open>read_machine\<close> catches. Digits and blanks of code points from
  256 on, which \<open>int\<close> also reads, have no \<open>char\<close>.
\<close>

definition is_space :: "char \<Rightarrow> bool" where
  "is_space c = (of_char c \<in> {9, 10, 11, 12, 13, 32, 133, 160 :: nat})"

definition is_digit :: "char \<Rightarrow> bool" where
  "is_digit c = (48 \<le> (of_char c :: nat) \<and> (of_char c :: nat) \<le> 57)"

definition digit_of :: "char \<Rightarrow> int" where
  "digit_of c = of_char c - 48"

definition strip :: "string \<Rightarrow> string" where
  "strip s = rev (dropWhile is_space (rev (dropWhile is_space s)))"

fun digits_value :: "string \<Rightarrow> int \<Rightarrow> int option" where
  "digits_value [] acc = Some acc"
| "digits_value (c # cs) acc =
     (if c = CHR ''_'' then
        (case cs of
           [] \<Rightarrow> None
         | d # ds \<Rightarrow>
             if is_digit d then digits_value ds (10 * acc + digit_of d) else None)
      else if is_digit c then digits_value cs (10 * acc + digit_of c)
      else None)"

definition max_str_digits :: nat where
  "max_str_digits = 4300"

definition unsigned_value :: "string \<Rightarrow> int option" where
  "unsigned_value s =
     (case s of
        [] \<Rightarrow> None
      | d # ds \<Rightarrow>
          if is_digit d then
            (if length (filter is_digit s) > max_str_digits then None
             else digits_value ds (digit_of d))
          else None)"

definition py_int :: "string \<Rightarrow> int option" where
  "py_int s =
     (case strip s of
        [] \<Rightarrow> None
      | c # cs \<Rightarrow>
          if c = CHR ''-'' then map_option uminus (unsigned_value cs)
          else if c = CHR ''+'' then unsigned_value cs
          else unsigned_value (c # cs))"

text \<open>\<open>s.split(' ')\<close>: the pieces of \<open>s\<close> between single spaces, empty pieces kept.\<close>

fun split_space :: "string \<Rightarrow> string list" where
  "split_space [] = [[]]"
| "split_space (c # cs) =
     (if c = CHR '' '' then [] # split_space cs
      else (case split_space cs of
              [] \<Rightarrow> [[c]]
            | w # ws \<Rightarrow> (c # w) # ws))"

text \<open>
  Lines 156-175: one pass through the body of the \<open>for\<close> loop, on one line of the
  action table. \<open>None\<close> is \<open>return False\<close>, reached by a \<open>return\<close> or through the
  \<open>except ValueError\<close>. The source converts the direction twice, with the same
  result; the right-hand side of the assignment (direction, new state) is evaluated
  before the key \<open>int(line[0])\<close>.
\<close>

definition read_action_line :: "machine \<Rightarrow> string \<Rightarrow> machine option" where
  "read_action_line m l =
     (let line = split_space l in
      if length line < 5 then None
      else if length (line ! 1) > 1 \<or> length (line ! 2) > 1 then None
      else
        (case py_int (line ! 3) of
           None \<Rightarrow> None
         | Some d \<Rightarrow>
             if \<bar>d\<bar> > 1 then None
             else
               (case py_int (line ! 4) of
                  None \<Rightarrow> None
                | Some ns \<Rightarrow>
                    (case py_int (line ! 0) of
                       None \<Rightarrow> None
                     | Some s \<Rightarrow>
                         Some (m\<lparr>action_table := (action_table m)
                           (s \<mapsto> (case action_table m s of
                                     None \<Rightarrow> Map.empty
                                   | Some row \<Rightarrow> row)
                                  (line ! 1 \<mapsto>
                                     \<lparr>write_char = line ! 2, direction = d,
                                      new_state = ns\<rparr>))\<rparr>)))))"

text \<open>Lines 138-181: the \<open>for\<close> loop over the lines of the action table.\<close>

fun read_actions :: "machine \<Rightarrow> string list \<Rightarrow> bool \<times> machine" where
  "read_actions m [] = (True, m)"
| "read_actions m (l # ls) =
     (case read_action_line m l of
        None \<Rightarrow> (False, m)
      | Some m' \<Rightarrow> read_actions m' ls)"

text \<open>
  Lines 112-181, from the list of the file's lines (\<open>f.read().splitlines()\<close>) on. The
  result is the success flag and the machine as the call leaves it: the fields
  assigned before a failure stay assigned.
\<close>

definition read_machine :: "machine \<Rightarrow> string list \<Rightarrow> bool \<times> machine" where
  "read_machine m lines =
     (if length lines < 4 then (False, m)
      else
        (let m1 = m\<lparr>tape_contents := map (\<lambda>c. [c]) (lines ! 0)\<rparr> in
         case py_int (lines ! 1) of
           None \<Rightarrow> (False, m1)
         | Some h \<Rightarrow>
             (case py_int (lines ! 2) of
                None \<Rightarrow> (False, m1\<lparr>head := h\<rparr>)
              | Some s \<Rightarrow>
                  (case py_int (lines ! 3) of
                     None \<Rightarrow> (False, m1\<lparr>head := h, state := s\<rparr>)
                   | Some hs \<Rightarrow>
                       read_actions (m1\<lparr>head := h, state := s, halt_state := hs\<rparr>)
                         (drop 4 lines)))))"

subsection \<open>Runs of the loop and the predicates of the properties\<close>

text \<open>
  The configuration of \<open>execute\<close> (the machine and the snapshots collected so far)
  after \<open>n\<close> full passes through the loop body, when the loop makes that many.
\<close>

fun iterate_body ::
    "nat \<Rightarrow> machine \<Rightarrow> string list \<Rightarrow> (machine \<times> string list) option" where
  "iterate_body 0 m tr = Some (m, tr)"
| "iterate_body (Suc n) m tr =
     (if state m \<noteq> halt_state m then
        (case loop_body m of
           Stopped r \<Rightarrow> None
         | Stepped m' \<Rightarrow> iterate_body n m' (tr @ [concat (tape_contents m')]))
      else None)"

text \<open>
  The current state has no dictionary at all, or the symbol under the head is read
  and neither it nor \<open>*\<close> is a key of the state's dictionary.
\<close>

definition no_entry :: "machine \<Rightarrow> bool" where
  "no_entry m =
     (case action_table m (state m) of
        None \<Rightarrow> True
      | Some row \<Rightarrow>
          (case py_index (tape_contents m) (head m) of
             None \<Rightarrow> False
           | Some k \<Rightarrow> row (tape_contents m ! k) = None \<and> row ''*'' = None))"

definition head_in_bounds :: "machine \<Rightarrow> bool" where
  "head_in_bounds m = (0 \<le> head m \<and> head m < int (length (tape_contents m)))"

text \<open>
  Every action of the table moves the head by -1, 0 or 1, as the comment on
  \<open>Action\<close> says and as \<open>read_machine\<close> checks before it stores an action.
\<close>

definition directions_ok :: "machine \<Rightarrow> bool" where
  "directions_ok m =
     (\<forall>s row r a. action_table m s = Some row \<longrightarrow> row r = Some a \<longrightarrow>
        \<bar>direction a\<bar> \<le> 1)"

text \<open>The checks of \<open>read_machine\<close> on the first four lines and on a line of the table.\<close>

definition header_rejected :: "string list \<Rightarrow> bool" where
  "header_rejected lines =
     (length lines < 4 \<or> py_int (lines ! 1) = None \<or> py_int (lines ! 2) = None \<or>
      py_int (lines ! 3) = None)"

text \<open>The first five fields of a line of the table.\<close>

definition first_five :: "string \<Rightarrow> string list" where
  "first_five l = take 5 (split_space l)"

definition line_rejected :: "string \<Rightarrow> bool" where
  "line_rejected l =
     (let line = split_space l in
      length line < 5 \<or> length (line ! 1) > 1 \<or> length (line ! 2) > 1 \<or>
      (case py_int (line ! 3) of None \<Rightarrow> True | Some d \<Rightarrow> \<bar>d\<bar> > 1) \<or>
      py_int (line ! 4) = None \<or> py_int (line ! 0) = None)"

subsection \<open>Machines and descriptions of the scenarios\<close>

text \<open>
  Scenario A: tape \<open>101\<close>, head 0, start state 0, halt state 1, transitions
  \<open>(0,'1','0',1,0)\<close> and \<open>(0,'0','*',1,1)\<close>.
\<close>

definition scenario_A :: machine where
  "scenario_A =
     \<lparr>head = 0, state = 0, halt_state = 1, tape_contents = [''1'', ''0'', ''1''],
      action_table =
        [0 \<mapsto> [''1'' \<mapsto> \<lparr>write_char = ''0'', direction = 1, new_state = 0\<rparr>,
                ''0'' \<mapsto> \<lparr>write_char = ''*'', direction = 1, new_state = 1\<rparr>]]\<rparr>"

definition scenario_A_lines :: "string list" where
  "scenario_A_lines = [''101'', ''0'', ''0'', ''1'', ''0 1 0 1 0'', ''0 0 * 1 1'']"

text \<open>
  Scenario B: tape \<open>0\<close>, head 0, start state 0, halt state 9, the one transition
  \<open>(0,'1','0',1,1)\<close>.
\<close>

definition scenario_B :: machine where
  "scenario_B =
     \<lparr>head = 0, state = 0, halt_state = 9, tape_contents = [''0''],
      action_table =
        [0 \<mapsto> [''1'' \<mapsto> \<lparr>write_char = ''0'', direction = 1, new_state = 1\<rparr>]]\<rparr>"

text \<open>A state with an entry for \<open>a\<close> and a wildcard entry, the head on \<open>a\<close>.\<close>

definition exact_action :: action where
  "exact_action = \<lparr>write_char = ''x'', direction = 1, new_state = 6\<rparr>"

definition wild_action :: action where
  "wild_action = \<lparr>write_char = ''y'', direction = - 1, new_state = 7\<rparr>"

definition both_entries :: machine where
  "both_entries =
     \<lparr>head = 1, state = 5, halt_state = 0, tape_contents = [''b'', ''a''],
      action_table = [5 \<mapsto> [''a'' \<mapsto> exact_action, ''*'' \<mapsto> wild_action]]\<rparr>"

text \<open>A machine on the first cell of \<open>ab\<close> whose action for \<open>a\<close> moves left.\<close>

definition left_writer :: action where
  "left_writer = \<lparr>write_char = ''c'', direction = - 1, new_state = 1\<rparr>"

definition left_keeper :: action where
  "left_keeper = \<lparr>write_char = ''*'', direction = - 1, new_state = 1\<rparr>"

definition at_left_end :: machine where
  "at_left_end =
     \<lparr>head = 0, state = 0, halt_state = 1, tape_contents = [''a'', ''b''],
      action_table = [0 \<mapsto> [''a'' \<mapsto> left_writer]]\<rparr>"

text \<open>Descriptions whose head offset lies outside the tape \<open>01\<close>.\<close>

definition head_past_end_lines :: "string list" where
  "head_past_end_lines = [''01'', ''5'', ''0'', ''1'', ''0 * * 0 1'']"

definition head_negative_lines :: "string list" where
  "head_negative_lines = [''01'', ''-1'', ''0'', ''1'', ''0 1 0 0 1'']"

text \<open>
  A description whose table line has five fields, the same with a sixth field, and
  one with direction 2.
\<close>

definition five_fields_lines :: "string list" where
  "five_fields_lines = [''1'', ''0'', ''0'', ''1'', ''0 1 0 1 0'']"

definition six_fields_lines :: "string list" where
  "six_fields_lines = [''1'', ''0'', ''0'', ''1'', ''0 1 0 1 0 x'']"

definition direction_two_lines :: "string list" where
  "direction_two_lines = [''1'', ''0'', ''0'', ''1'', ''0 1 0 2 0'']"

section \<open>Properties\<close>

subsection \<open>Evaluation\<close>

lemmas int_defs = py_int_def strip_def is_space_def unsigned_value_def is_digit_def
  digit_of_def max_str_digits_def

lemmas load_defs = read_machine_def read_action_line_def int_defs init_machine_def

lemmas run_defs = loop_body_def py_index_def select_read_def take_action_def
  write_tape_def

lemma scenario_A_loaded: "read_machine init_machine scenario_A_lines = (True, scenario_A)"
  by (simp add: scenario_A_lines_def scenario_A_def load_defs)

subsection \<open>Helper lemmas\<close>

lemma execute_loop_iterate:
  "iterate_body n m tr = Some (m', tr') \<Longrightarrow> execute_loop m tr = execute_loop m' tr'"
proof (induction n arbitrary: m tr)
  case 0
  then show ?case by simp
next
  case (Suc n)
  from Suc.prems obtain m1 where
    run: "state m \<noteq> halt_state m" and body: "loop_body m = Stepped m1"
    and rest: "iterate_body n m1 (tr @ [concat (tape_contents m1)]) = Some (m', tr')"
    by (auto split: if_splits step_result.splits)
  have "execute_loop m tr = execute_loop m1 (tr @ [concat (tape_contents m1)])"
    using run body by (subst execute_loop.simps) simp
  with Suc.IH [OF rest] show ?case by simp
qed

lemma loop_body_no_entry: "no_entry m \<Longrightarrow> loop_body m = Stopped NoTrace"
  by (auto simp: no_entry_def loop_body_def select_read_def split: option.splits)

lemma execute_loop_no_entry:
  "state m \<noteq> halt_state m \<Longrightarrow> no_entry m \<Longrightarrow> execute_loop m tr = Some (NoTrace, m)"
  by (subst execute_loop.simps) (simp add: loop_body_no_entry)

lemma execute_no_entry:
  assumes "iterate_body n m0 [concat (tape_contents m0)] = Some (m, tr)"
    and "state m \<noteq> halt_state m" and "no_entry m"
  shows "execute m0 = Some (NoTrace, m)"
  using execute_loop_iterate [OF assms(1)] execute_loop_no_entry [OF assms(2,3)]
  by (simp add: execute_def)

lemma take_action_bounds:
  assumes "\<bar>direction a\<bar> \<le> 1" "head_in_bounds m" "take_action a m = Inr m'"
  shows "head_in_bounds m' \<and> length (tape_contents m) \<le> length (tape_contents m')"
  using assms
  by (auto simp: take_action_def write_tape_def head_in_bounds_def py_index_def Let_def
      split: if_splits sum.splits option.splits)

lemma take_action_table: "take_action a m = Inr m' \<Longrightarrow> action_table m' = action_table m"
  by (auto simp: take_action_def Let_def split: sum.splits if_splits)

lemma loop_body_bounds:
  assumes "directions_ok m" "head_in_bounds m" "loop_body m = Stepped m'"
  shows "directions_ok m' \<and> head_in_bounds m' \<and>
    length (tape_contents m) \<le> length (tape_contents m')"
proof -
  from assms(3) obtain row r a where
    row: "action_table m (state m) = Some row" and a: "row r = Some a"
    and act: "take_action a m = Inr m'"
    by (auto simp: loop_body_def split: option.splits sum.splits)
  from assms(1) row a have "\<bar>direction a\<bar> \<le> 1"
    unfolding directions_ok_def by blast
  with take_action_bounds [OF _ assms(2) act] take_action_table [OF act] assms(1)
  show ?thesis by (simp add: directions_ok_def)
qed

lemma iterate_body_bounds:
  "directions_ok m \<Longrightarrow> head_in_bounds m \<Longrightarrow> iterate_body n m tr = Some (m', tr') \<Longrightarrow>
   directions_ok m' \<and> head_in_bounds m' \<and>
   length (tape_contents m) \<le> length (tape_contents m')"
proof (induction n arbitrary: m tr)
  case 0
  then show ?case by simp
next
  case (Suc n)
  from Suc.prems(3) obtain m1 where
    body: "loop_body m = Stepped m1"
    and rest: "iterate_body n m1 (tr @ [concat (tape_contents m1)]) = Some (m', tr')"
    by (auto split: if_splits step_result.splits)
  from loop_body_bounds [OF Suc.prems(1,2) body]
  have 1: "directions_ok m1" "head_in_bounds m1"
    "length (tape_contents m) \<le> length (tape_contents m1)"
    by simp_all
  from Suc.IH [OF 1(1,2) rest] 1(3) show ?case by simp
qed

text \<open>In bounds, no pass through the loop body raises an exception.\<close>

lemma loop_body_no_exception:
  "head_in_bounds m \<Longrightarrow> loop_body m \<noteq> Stopped (Raised e)"
  by (auto simp: loop_body_def head_in_bounds_def py_index_def select_read_def
      take_action_def write_tape_def Let_def split: option.splits sum.splits if_splits)

text \<open>The flag of \<open>read_machine\<close>, in terms of its checks.\<close>

lemma read_action_line_rejected:
  "read_action_line m l = None \<longleftrightarrow> line_rejected l"
  by (auto simp: read_action_line_def line_rejected_def Let_def
      split: option.splits if_splits)

lemma read_actions_flag:
  "fst (read_actions m ls) \<longleftrightarrow> (\<forall>l \<in> set ls. \<not> line_rejected l)"
proof (induction ls arbitrary: m)
  case Nil
  then show ?case by simp
next
  case (Cons l ls)
  show ?case
  proof (cases "read_action_line m l")
    case None
    then show ?thesis using read_action_line_rejected [of m l] by simp
  next
    case (Some m1)
    then have "\<not> line_rejected l"
      using read_action_line_rejected [of m l] by simp
    with Some Cons.IH [of m1] show ?thesis by simp
  qed
qed

text \<open>\<open>read_machine\<close> stores only actions that move the head by -1, 0 or 1.\<close>

lemma read_action_line_directions:
  "directions_ok m \<Longrightarrow> read_action_line m l = Some m' \<Longrightarrow> directions_ok m'"
  by (auto simp: read_action_line_def directions_ok_def Let_def
      split: if_splits option.splits)

lemma read_actions_directions:
  "directions_ok m \<Longrightarrow> read_actions m ls = (ok, m') \<Longrightarrow> directions_ok m'"
proof (induction ls arbitrary: m)
  case Nil
  then show ?case by simp
next
  case (Cons l ls)
  show ?case
  proof (cases "read_action_line m l")
    case None
    with Cons.prems show ?thesis by simp
  next
    case (Some m1)
    with Cons.prems have "read_actions m1 ls = (ok, m')" by simp
    with Cons.IH read_action_line_directions [OF Cons.prems(1) Some]
    show ?thesis by blast
  qed
qed

lemma read_machine_directions:
  assumes "directions_ok m" "read_machine m lines = (ok, m')"
  shows "directions_ok m'"
proof (cases "header_rejected lines")
  case True
  then have "action_table m' = action_table m"
    using assms(2)
    by (auto simp: read_machine_def header_rejected_def Let_def
        split: if_splits option.splits)
  with assms(1) show ?thesis by (simp add: directions_ok_def)
next
  case False
  then obtain h s hs where
    "read_actions (m\<lparr>tape_contents := map (\<lambda>c. [c]) (lines ! 0), head := h, state := s,
       halt_state := hs\<rparr>) (drop 4 lines) = (ok, m')"
    using assms(2)
    by (auto simp: read_machine_def header_rejected_def Let_def
        split: if_splits option.splits)
  moreover have "directions_ok (m\<lparr>tape_contents := map (\<lambda>c. [c]) (lines ! 0), head := h,
      state := s, halt_state := hs\<rparr>)"
    using assms(1) by (simp add: directions_ok_def)
  ultimately show ?thesis by (rule read_actions_directions [rotated])
qed

lemma init_machine_directions: "directions_ok init_machine"
  by (simp add: directions_ok_def init_machine_def)

lemma read_machine_flag:
  "fst (read_machine m lines) \<longleftrightarrow>
     \<not> header_rejected lines \<and> (\<forall>l \<in> set (drop 4 lines). \<not> line_rejected l)"
  by (auto simp: read_machine_def header_rejected_def Let_def read_actions_flag
      split: option.splits)

text \<open>\<open>read_machine\<close> reads no more than the first five fields of a line of the table.\<close>

lemma read_action_line_first_five:
  assumes "first_five l = first_five l'"
  shows "read_action_line m l = read_action_line m l'"
proof -
  let ?a = "split_space l" and ?b = "split_space l'"
  have eq: "take 5 ?a = take 5 ?b"
    using assms by (simp add: first_five_def)
  have len: "length ?a < 5 \<longleftrightarrow> length ?b < 5"
    using arg_cong [OF eq, of length] by (simp add: min_def split: if_splits)
  have nth: "?a ! i = ?b ! i" if "i < 5" for i
    using arg_cong [OF eq, of "\<lambda>xs. xs ! i"] that by simp
  have n0: "?a ! 0 = ?b ! 0" and n1: "?a ! 1 = ?b ! 1" and n2: "?a ! 2 = ?b ! 2"
    and n3: "?a ! 3 = ?b ! 3" and n4: "?a ! 4 = ?b ! 4"
    by (simp_all add: nth)
  show ?thesis
    unfolding read_action_line_def Let_def len n0 n1 n2 n3 n4 by (rule refl)
qed

lemma read_actions_first_five:
  "map first_five ls = map first_five ls' \<Longrightarrow> read_actions m ls = read_actions m ls'"
proof (induction ls arbitrary: ls' m)
  case Nil
  then show ?case by simp
next
  case (Cons l ls)
  then obtain l' rest where ls': "ls' = l' # rest" and l: "first_five l = first_five l'"
    and rest: "map first_five ls = map first_five rest"
    by (cases ls') auto
  from read_action_line_first_five [OF l] Cons.IH [OF rest] show ?case
    by (simp add: ls' split: option.splits)
qed

lemma read_machine_first_five:
  assumes "take 4 lines = take 4 lines'"
    and "map first_five (drop 4 lines) = map first_five (drop 4 lines')"
  shows "read_machine m lines = read_machine m lines'"
proof (cases "length lines < 4")
  case True
  then have "take 4 lines = lines" by simp
  with assms(1) have same: "take 4 lines' = lines" by simp
  then have "length (take 4 lines') < 4" using True by simp
  then have "length lines' < 4" by (simp add: min_def split: if_splits)
  then have "take 4 lines' = lines'" by simp
  with same show ?thesis by simp
next
  case False
  have "length (take 4 lines') = length (take 4 lines)"
    by (simp add: assms(1))
  with False have len: "\<not> length lines' < 4"
    unfolding length_take by linarith
  have nth: "lines ! i = lines' ! i" if "i < 4" for i
    using arg_cong [OF assms(1), of "\<lambda>xs. xs ! i"] that by simp
  have n0: "lines ! 0 = lines' ! 0" and n1: "lines ! 1 = lines' ! 1"
    and n2: "lines ! 2 = lines' ! 2" and n3: "lines ! 3 = lines' ! 3"
    by (simp_all add: nth)
  have rest: "read_actions k (drop 4 lines) = read_actions k (drop 4 lines')" for k
    by (rule read_actions_first_five [OF assms(2)])
  show ?thesis
    unfolding read_machine_def Let_def n0 n1 n2 n3 rest
    using False len by simp
qed

subsection \<open>Scenario A\<close>

text \<open>
  Claim C1, as amended: on the machine of scenario A, \<open>execute\<close> halts and returns the
  trace \<open>["101", "001", "001"]\<close>. The second step moves the head to index 2, which is
  inside the tape of length 3, so no blank is appended; the machine is left with
  head 2, state 1 and tape \<open>001\<close>.
\<close>

theorem scenario_A_trace:
  "execute scenario_A =
     Some (Trace [''101'', ''001'', ''001''],
           scenario_A\<lparr>head := 2, state := 1, tape_contents := [''0'', ''0'', ''1'']\<rparr>)"
  by (simp add: execute_def execute_loop.simps scenario_A_def run_defs)

text \<open>
  Claim C1 as stated fails: the trace of scenario A is not
  \<open>["101", "001", "001-"]\<close>.
\<close>

theorem scenario_A_trace_counterexample:
  "map_option fst (execute scenario_A) \<noteq> Some (Trace [''101'', ''001'', ''001-''])"
  by (simp add: execute_def execute_loop.simps scenario_A_def run_defs)

subsection \<open>Validation in read_machine\<close>

text \<open>
  Claim C2, as amended: \<open>read_machine\<close> returns \<open>False\<close> whenever the description has
  fewer than 4 lines, or its second, third or fourth line does not parse as an
  integer, or some line of the table splits at single spaces into fewer than 5
  fields, or has a read or write field of more than one character, or a direction
  that does not parse or whose absolute value is greater than 1, or a state or new
  state that does not parse. The fields of a line of the table after the fifth are
  ignored: two descriptions with the same first four lines, whose table lines agree
  one by one on their first five fields, give the same flag and the same machine.
\<close>

theorem read_machine_rejects:
  "(header_rejected lines \<or> (\<exists>l \<in> set (drop 4 lines). line_rejected l) \<longrightarrow>
      fst (read_machine m lines) = False) \<and>
   (take 4 lines = take 4 lines' \<and>
    map first_five (drop 4 lines) = map first_five (drop 4 lines') \<longrightarrow>
      read_machine m lines = read_machine m lines')"
proof (intro conjI impI)
  assume "header_rejected lines \<or> (\<exists>l \<in> set (drop 4 lines). line_rejected l)"
  then show "fst (read_machine m lines) = False"
    by (auto simp: read_machine_flag)
next
  assume same: "take 4 lines = take 4 lines' \<and>
    map first_five (drop 4 lines) = map first_five (drop 4 lines')"
  show "read_machine m lines = read_machine m lines'"
    by (rule read_machine_first_five [OF conjunct1 [OF same] conjunct2 [OF same]])
qed

theorem read_machine_rejects_witness:
  "(header_rejected direction_two_lines \<or>
      (\<exists>l \<in> set (drop 4 direction_two_lines). line_rejected l)) \<and>
   fst (read_machine init_machine direction_two_lines) = False \<and>
   take 4 five_fields_lines = take 4 six_fields_lines \<and>
   map first_five (drop 4 five_fields_lines) = map first_five (drop 4 six_fields_lines) \<and>
   first_five (six_fields_lines ! 4) = [''0'', ''1'', ''0'', ''1'', ''0''] \<and>
   read_machine init_machine five_fields_lines = read_machine init_machine six_fields_lines"
proof -
  have h: "header_rejected direction_two_lines \<or>
      (\<exists>l \<in> set (drop 4 direction_two_lines). line_rejected l)"
    by (simp add: direction_two_lines_def line_rejected_def int_defs)
  have t: "take 4 five_fields_lines = take 4 six_fields_lines"
    by (simp add: five_fields_lines_def six_fields_lines_def)
  have f: "map first_five (drop 4 five_fields_lines) =
      map first_five (drop 4 six_fields_lines)"
    by (simp add: five_fields_lines_def six_fields_lines_def first_five_def)
  have s: "first_five (six_fields_lines ! 4) = [''0'', ''1'', ''0'', ''1'', ''0'']"
    by (simp add: six_fields_lines_def first_five_def)
  from read_machine_rejects [where lines = direction_two_lines and m = init_machine] h
  have 1: "fst (read_machine init_machine direction_two_lines) = False"
    by (rule conjunct1 [THEN mp])
  from read_machine_rejects [where lines = five_fields_lines and lines' = six_fields_lines
      and m = init_machine] t f
  have 2: "read_machine init_machine five_fields_lines =
      read_machine init_machine six_fields_lines"
    by (simp only:)
  from h 1 t f s 2 show ?thesis by (intro conjI)
qed

text \<open>
  Claim C2 as stated fails: a description whose table line splits into six fields,
  not five, is accepted.
\<close>

theorem read_machine_six_fields_counterexample:
  "length (split_space (six_fields_lines ! 4)) = 6 \<and>
   fst (read_machine init_machine six_fields_lines) = True"
  by (simp add: six_fields_lines_def load_defs)

subsection \<open>Lookup\<close>

text \<open>
  Claim C3: when the dictionary of the current state has an entry for the symbol
  under the head and a wildcard entry, the key selected is the symbol itself and the
  pass through the loop body takes the action of the exact entry.
\<close>

theorem exact_entry_precedes_wildcard:
  assumes "action_table m (state m) = Some row"
    and "py_index (tape_contents m) (head m) = Some k"
    and "row (tape_contents m ! k) = Some exact"
    and "row ''*'' = Some wild"
  shows "select_read row (tape_contents m ! k) = Some (tape_contents m ! k) \<and>
    loop_body m =
      (case take_action exact m of Inl e \<Rightarrow> Stopped (Raised e) | Inr m' \<Rightarrow> Stepped m')"
  using assms by (simp add: loop_body_def select_read_def)

theorem exact_entry_precedes_wildcard_witness:
  "action_table both_entries (state both_entries) =
     Some [''a'' \<mapsto> exact_action, ''*'' \<mapsto> wild_action] \<and>
   py_index (tape_contents both_entries) (head both_entries) = Some 1 \<and>
   tape_contents both_entries ! 1 = ''a'' \<and>
   select_read [''a'' \<mapsto> exact_action, ''*'' \<mapsto> wild_action] ''a'' = Some ''a'' \<and>
   loop_body both_entries =
     Stepped (both_entries\<lparr>head := 2, state := 6, tape_contents := [''b'', ''x'', ''-'']\<rparr>)"
proof -
  have 1: "action_table both_entries (state both_entries) =
      Some [''a'' \<mapsto> exact_action, ''*'' \<mapsto> wild_action]"
    by (simp add: both_entries_def)
  have 2: "py_index (tape_contents both_entries) (head both_entries) = Some 1"
    by (simp add: both_entries_def py_index_def)
  have 3: "tape_contents both_entries ! 1 = ''a''"
    by (simp add: both_entries_def)
  have 4: "[''a'' \<mapsto> exact_action, ''*'' \<mapsto> wild_action] (tape_contents both_entries ! 1) =
      Some exact_action"
    by (simp add: both_entries_def)
  have 5: "[''a'' \<mapsto> exact_action, ''*'' \<mapsto> wild_action] ''*'' = Some wild_action"
    by simp
  have 6: "take_action exact_action both_entries =
      Inr (both_entries\<lparr>head := 2, state := 6, tape_contents := [''b'', ''x'', ''-'']\<rparr>)"
    by (simp add: both_entries_def exact_action_def take_action_def write_tape_def
        py_index_def)
  from exact_entry_precedes_wildcard [OF 1 2 4 5]
  have "select_read [''a'' \<mapsto> exact_action, ''*'' \<mapsto> wild_action] ''a'' = Some ''a'' \<and>
    loop_body both_entries =
      Stepped (both_entries\<lparr>head := 2, state := 6, tape_contents := [''b'', ''x'', ''-'']\<rparr>)"
    by (simp only: 3 6 sum.simps)
  with 1 2 3 show ?thesis by blast
qed

subsection \<open>No applicable entry\<close>

text \<open>
  Claim C4: when a run of \<open>execute\<close> comes to a configuration, not in the halt state,
  whose state has no dictionary, or whose state's dictionary has neither the symbol
  under the head nor the wildcard as a key, \<open>execute\<close> returns \<open>None\<close> and no trace.
  Scenario B (tape \<open>0\<close>, head 0, start 0, halt 9, the one transition
  \<open>(0,'1','0',1,1)\<close>) is the instance below.
\<close>

theorem execute_no_transition:
  assumes "iterate_body n m0 [concat (tape_contents m0)] = Some (m, tr)"
    and "state m \<noteq> halt_state m"
    and "no_entry m"
  shows "map_option fst (execute m0) = Some NoTrace"
  using execute_no_entry [OF assms] by simp

theorem execute_no_transition_witness:
  "iterate_body 0 scenario_B [concat (tape_contents scenario_B)] =
     Some (scenario_B, [''0'']) \<and>
   state scenario_B \<noteq> halt_state scenario_B \<and> no_entry scenario_B \<and>
   map_option fst (execute scenario_B) = Some NoTrace"
proof -
  have 1: "iterate_body 0 scenario_B [concat (tape_contents scenario_B)] =
      Some (scenario_B, [''0''])"
    by (simp add: scenario_B_def)
  have 2: "state scenario_B \<noteq> halt_state scenario_B"
    by (simp add: scenario_B_def)
  have 3: "no_entry scenario_B"
    by (simp add: scenario_B_def no_entry_def py_index_def)
  from execute_no_transition [OF 1 2 3] 1 2 3 show ?thesis by simp
qed

text \<open>
  Claim C6: in the situation of claim C4 the machine that \<open>execute\<close> leaves behind is
  the machine as it was before the failing pass: tape, head and state (and the
  table) are unchanged.
\<close>

theorem failing_step_atomic:
  assumes "iterate_body n m0 [concat (tape_contents m0)] = Some (m, tr)"
    and "state m \<noteq> halt_state m"
    and "no_entry m"
  shows "map_option snd (execute m0) = Some m"
  using execute_no_entry [OF assms] by simp

theorem failing_step_atomic_witness:
  "iterate_body (Suc (Suc 0)) (scenario_A\<lparr>halt_state := 9\<rparr>)
       [concat (tape_contents (scenario_A\<lparr>halt_state := 9\<rparr>))] =
     Some (scenario_A\<lparr>halt_state := 9, head := 2, state := 1,
             tape_contents := [''0'', ''0'', ''1'']\<rparr>, [''101'', ''001'', ''001'']) \<and>
   no_entry (scenario_A\<lparr>halt_state := 9, head := 2, state := 1,
             tape_contents := [''0'', ''0'', ''1'']\<rparr>) \<and>
   map_option snd (execute (scenario_A\<lparr>halt_state := 9\<rparr>)) =
     Some (scenario_A\<lparr>halt_state := 9, head := 2, state := 1,
             tape_contents := [''0'', ''0'', ''1'']\<rparr>)"
proof -
  let ?start = "scenario_A\<lparr>halt_state := 9\<rparr>"
  let ?stuck = "scenario_A\<lparr>halt_state := 9, head := 2, state := 1,
    tape_contents := [''0'', ''0'', ''1'']\<rparr>"
  have 1: "iterate_body (Suc (Suc 0)) ?start [concat (tape_contents ?start)] =
      Some (?stuck, [''101'', ''001'', ''001''])"
    by (simp add: scenario_A_def run_defs)
  have 2: "state ?stuck \<noteq> halt_state ?stuck"
    by (simp add: scenario_A_def)
  have 3: "no_entry ?stuck"
    by (simp add: scenario_A_def no_entry_def)
  from failing_step_atomic [OF 1 2 3] 1 3 show ?thesis by simp
qed

subsection \<open>Bounds\<close>

text \<open>
  Claim C5: from a configuration whose head is inside the tape, on a table whose
  actions move the head by -1, 0 or 1 (every table \<open>read_machine\<close> builds, see
  \<open>read_machine_directions\<close>), the head is inside the tape after every number of
  passes through the loop body, and the tape is at least as long as it was.
\<close>

theorem head_stays_in_bounds:
  assumes "directions_ok m0"
    and "head_in_bounds m0"
    and "iterate_body n m0 tr0 = Some (m, tr)"
  shows "0 \<le> head m \<and> head m < int (length (tape_contents m)) \<and>
    length (tape_contents m0) \<le> length (tape_contents m)"
  using iterate_body_bounds [OF assms] by (simp add: head_in_bounds_def)

theorem head_stays_in_bounds_witness:
  "directions_ok at_left_end \<and> head_in_bounds at_left_end \<and>
   iterate_body (Suc 0) at_left_end [''ab''] =
     Some (at_left_end\<lparr>head := 0, state := 1, tape_contents := [''-'', ''c'', ''b'']\<rparr>,
           [''ab'', ''-cb'']) \<and>
   0 \<le> head (at_left_end\<lparr>head := 0, state := 1, tape_contents := [''-'', ''c'', ''b'']\<rparr>) \<and>
   length (tape_contents at_left_end) = 2 \<and>
   length (tape_contents
     (at_left_end\<lparr>head := 0, state := 1, tape_contents := [''-'', ''c'', ''b'']\<rparr>)) = 3"
proof -
  let ?after = "at_left_end\<lparr>head := 0, state := 1, tape_contents := [''-'', ''c'', ''b'']\<rparr>"
  have 1: "directions_ok at_left_end"
    by (auto simp: directions_ok_def at_left_end_def left_writer_def split: if_splits)
  have 2: "head_in_bounds at_left_end"
    by (simp add: head_in_bounds_def at_left_end_def)
  have 3: "iterate_body (Suc 0) at_left_end [''ab''] = Some (?after, [''ab'', ''-cb''])"
    by (simp add: at_left_end_def left_writer_def run_defs)
  from head_stays_in_bounds [OF 1 2 3] 1 2 3 show ?thesis
    by (simp add: at_left_end_def)
qed

subsection \<open>Immediate halt\<close>

text \<open>
  Claim C7: when the machine is in its halt state as \<open>execute\<close> begins, \<open>execute\<close>
  makes no pass through the loop body: it returns the trace whose one element is the
  snapshot of the initial tape, and leaves the machine as it was.
\<close>

theorem immediate_halt:
  assumes "state m = halt_state m"
  shows "execute m = Some (Trace [concat (tape_contents m)], m)"
  using assms by (simp add: execute_def execute_loop.simps)

theorem immediate_halt_witness:
  "state (scenario_A\<lparr>state := 1\<rparr>) = halt_state (scenario_A\<lparr>state := 1\<rparr>) \<and>
   execute (scenario_A\<lparr>state := 1\<rparr>) = Some (Trace [''101''], scenario_A\<lparr>state := 1\<rparr>)"
proof -
  have h: "state (scenario_A\<lparr>state := 1\<rparr>) = halt_state (scenario_A\<lparr>state := 1\<rparr>)"
    by (simp add: scenario_A_def)
  have "concat (tape_contents (scenario_A\<lparr>state := 1\<rparr>)) = ''101''"
    by (simp add: scenario_A_def)
  with immediate_halt [OF h] h show ?thesis by simp
qed

subsection \<open>The effect of an action\<close>

text \<open>
  Claim C8: an action whose write field is \<open>*\<close> never raises, changes the state to
  its new state, moves the head by its direction (back to 0 when that would be
  negative) and changes the tape only by the blank that the move prepends or
  appends; the cell that was under the head before the move holds the symbol it held.
\<close>

theorem no_write_keeps_symbol:
  assumes "write_char a = ''*''"
  shows "\<exists>m'. take_action a m = Inr m' \<and>
    state m' = new_state a \<and>
    head m' = (if head m + direction a < 0 then 0 else head m + direction a) \<and>
    tape_contents m' =
      (if head m + direction a < 0 then ''-'' # tape_contents m
       else if int (length (tape_contents m)) \<le> head m + direction a
         then tape_contents m @ [''-'']
       else tape_contents m) \<and>
    (\<forall>k. py_index (tape_contents m) (head m) = Some k \<longrightarrow>
       tape_contents m' ! (if head m + direction a < 0 then Suc k else k) =
         tape_contents m ! k)"
proof -
  have "\<And>k. py_index (tape_contents m) (head m) = Some k \<Longrightarrow>
      k < length (tape_contents m)"
    by (auto simp: py_index_def split: if_splits)
  then show ?thesis
    using assms by (auto simp: take_action_def write_tape_def Let_def nth_append)
qed

theorem no_write_keeps_symbol_witness:
  "write_char left_keeper = ''*'' \<and>
   take_action left_keeper at_left_end =
     Inr (at_left_end\<lparr>head := 0, state := 1, tape_contents := [''-'', ''a'', ''b'']\<rparr>) \<and>
   py_index (tape_contents at_left_end) (head at_left_end) = Some 0 \<and>
   tape_contents at_left_end ! 0 = ''a''"
proof -
  have h: "write_char left_keeper = ''*''"
    by (simp add: left_keeper_def)
  from no_write_keeps_symbol [OF h, of at_left_end] obtain m' where
    "take_action left_keeper at_left_end = Inr m'"
    "state m' = new_state left_keeper"
    "head m' = (if head at_left_end + direction left_keeper < 0 then 0
       else head at_left_end + direction left_keeper)"
    "tape_contents m' =
      (if head at_left_end + direction left_keeper < 0 then ''-'' # tape_contents at_left_end
       else if int (length (tape_contents at_left_end)) \<le>
           head at_left_end + direction left_keeper
         then tape_contents at_left_end @ [''-'']
       else tape_contents at_left_end)"
    by blast
  then have "take_action left_keeper at_left_end =
      Inr (at_left_end\<lparr>head := 0, state := 1, tape_contents := [''-'', ''a'', ''b'']\<rparr>)"
    by (simp add: take_action_def write_tape_def left_keeper_def at_left_end_def)
  with h show ?thesis
    by (simp add: at_left_end_def py_index_def)
qed

text \<open>
  Claim C9, as amended: a step that is taken with the head at 0 and an action of
  direction -1 leaves the head at 0 and prepends a blank to the tape as the step's
  write left it: the cell that was at index 0 is at index 1 and holds the symbol the
  action wrote, or its old symbol when the write field is \<open>*\<close>; every other symbol
  has moved right by one.
\<close>

theorem underflow_prepends_blank:
  assumes "head m = 0"
    and "direction a = - 1"
    and "take_action a m = Inr m'"
  shows "tape_contents m' =
      ''-'' # (if write_char a = ''*'' then tape_contents m
               else (tape_contents m)[0 := write_char a]) \<and>
    head m' = 0 \<and> state m' = new_state a"
  using assms
  by (auto simp: take_action_def write_tape_def py_index_def Let_def
      split: if_splits sum.splits)

theorem underflow_prepends_blank_witness:
  "head at_left_end = 0 \<and> direction left_writer = - 1 \<and>
   take_action left_writer at_left_end =
     Inr (at_left_end\<lparr>head := 0, state := 1, tape_contents := [''-'', ''c'', ''b'']\<rparr>) \<and>
   tape_contents (at_left_end\<lparr>head := 0, state := 1, tape_contents := [''-'', ''c'', ''b'']\<rparr>) =
     ''-'' # (tape_contents at_left_end)[0 := write_char left_writer]"
proof -
  have 1: "head at_left_end = 0"
    by (simp add: at_left_end_def)
  have 2: "direction left_writer = - 1"
    by (simp add: left_writer_def)
  have 3: "take_action left_writer at_left_end =
      Inr (at_left_end\<lparr>head := 0, state := 1, tape_contents := [''-'', ''c'', ''b'']\<rparr>)"
    by (simp add: take_action_def write_tape_def py_index_def left_writer_def
        at_left_end_def)
  have 4: "write_char left_writer \<noteq> ''*''"
    by (simp add: left_writer_def)
  from underflow_prepends_blank [OF 1 2 3] 1 2 3 4 show ?thesis by simp
qed

text \<open>
  Claim C9 as stated fails: the step below is taken with the head at 0 and direction
  -1, and the symbol at index 1 afterwards is the written \<open>c\<close>, not the \<open>a\<close> that
  was at index 0 before the step.
\<close>

theorem underflow_previous_symbol_counterexample:
  "head at_left_end = 0 \<and> direction left_writer = - 1 \<and>
   tape_contents at_left_end ! 0 = ''a'' \<and>
   take_action left_writer at_left_end =
     Inr (at_left_end\<lparr>head := 0, state := 1, tape_contents := [''-'', ''c'', ''b'']\<rparr>) \<and>
   tape_contents (at_left_end\<lparr>head := 0, state := 1, tape_contents := [''-'', ''c'', ''b'']\<rparr>) ! 1
     \<noteq> tape_contents at_left_end ! 0"
  by (simp add: take_action_def write_tape_def py_index_def left_writer_def
      at_left_end_def)

subsection \<open>The head offset is not validated\<close>

text \<open>
  Claim C10: \<open>read_machine\<close> accepts a description whose head offset is 5 on a tape
  of length 2, and one whose head offset is -1. Neither machine has its head inside
  the tape. On the first, the first read of \<open>execute\<close> raises \<open>IndexError\<close>; on the
  second the read at -1 is the read of the last cell (index 1), and \<open>execute\<close>
  goes on to return a trace.
\<close>

theorem read_machine_head_unchecked:
  "fst (read_machine init_machine head_past_end_lines) \<and>
   head (snd (read_machine init_machine head_past_end_lines)) = 5 \<and>
   length (tape_contents (snd (read_machine init_machine head_past_end_lines))) = 2 \<and>
   \<not> head_in_bounds (snd (read_machine init_machine head_past_end_lines)) \<and>
   map_option fst (execute (snd (read_machine init_machine head_past_end_lines))) =
     Some (Raised IndexError) \<and>
   fst (read_machine init_machine head_negative_lines) \<and>
   head (snd (read_machine init_machine head_negative_lines)) = - 1 \<and>
   \<not> head_in_bounds (snd (read_machine init_machine head_negative_lines)) \<and>
   py_index (tape_contents (snd (read_machine init_machine head_negative_lines))) (- 1) =
     Some 1 \<and>
   map_option fst (execute (snd (read_machine init_machine head_negative_lines))) =
     Some (Trace [''01'', ''-00''])"
proof -
  have past: "read_machine init_machine head_past_end_lines =
      (True, \<lparr>head = 5, state = 0, halt_state = 1, tape_contents = [''0'', ''1''],
        action_table =
          [0 \<mapsto> [''*'' \<mapsto> \<lparr>write_char = ''*'', direction = 0, new_state = 1\<rparr>]]\<rparr>)"
    by (simp add: head_past_end_lines_def load_defs)
  have neg: "read_machine init_machine head_negative_lines =
      (True, \<lparr>head = - 1, state = 0, halt_state = 1, tape_contents = [''0'', ''1''],
        action_table =
          [0 \<mapsto> [''1'' \<mapsto> \<lparr>write_char = ''0'', direction = 0, new_state = 1\<rparr>]]\<rparr>)"
    by (simp add: head_negative_lines_def load_defs)
  show ?thesis
    unfolding past neg
    by (simp add: head_in_bounds_def execute_def execute_loop.simps run_defs)
qed

end
